theory Spec2Isabelle
  imports Complex_Main
begin

section \<open>Data model\<close>

text \<open>
  The documents of the three collections, as the mongoose schemas declare them. A
  \<open>Number\<close> is the rational value of the double; a \<open>Date\<close> is its time value, the
  milliseconds since the epoch. The \<open>_id\<close> of a customer
  and of a product is the key under which the store holds the document. The \<open>status\<close> of an
  order is a string, which the schema restricts to \<open>pending\<close>, \<open>completed\<close> and
  \<open>canceled\<close>.
\<close>

type_synonym number = rat
type_synonym timestamp = int

record orderItem =
  productId :: string
  quantity :: number
  priceAtPurchase :: number

record order =
  order_id :: string
  customerId :: string
  products :: "orderItem list"
  totalAmount :: number
  orderDate :: timestamp
  status :: string

record product =
  name :: string
  category :: string
  price :: number
  stock :: number

record customer =
  customer_name :: string
  email :: string
  age :: "number option"
  location :: "string option"
  gender :: "string option"

text \<open>
  The data store. \<open>Customers\<close> and \<open>Products\<close> are keyed by \<open>_id\<close> (the store keeps it
  unique), \<open>Orders\<close> is the collection in its natural order. \<open>keyFormat\<close> says which
  identifiers the store can cast to its key type (a \<open>findById\<close> with another one rejects
  with a \<open>CastError\<close>, which the \<open>catch\<close> blocks of the resolvers look for); \<open>online\<close>
  says whether the store answers at all.

  The spending pipeline divides a sum, and its result depends on how the store rounds the two:
  a sum of doubles and a quotient of doubles are doubles again, and the next double below a
  tie rounds down where the exact value rounds up. So the store brings its own arithmetic for
  that pipeline: \<open>storeSum\<close> is what its \<open>$sum\<close> accumulator returns for the values of a
  group, in the order they arrive, and \<open>storeDivide\<close> is what its \<open>$divide\<close> returns for a
  divisor that is not 0. Neither is fixed: what is proved of the spending summary holds for
  the arithmetic of every store. The sums and products of the other two pipelines are exact.
\<close>

record store =
  Customers :: "string \<rightharpoonup> customer"
  Products :: "string \<rightharpoonup> product"
  Orders :: "order list"
  keyFormat :: "string \<Rightarrow> bool"
  online :: bool
  storeSum :: "number list \<Rightarrow> number"
  storeDivide :: "number \<Rightarrow> number \<Rightarrow> number"

section \<open>Errors and store calls\<close>

datatype error_code = BAD_USER_INPUT | NOT_FOUND | INTERNAL_SERVER_ERROR

text \<open>\<open>GraphQLError message code\<close>: the code is \<open>extensions.code\<close>, absent when the
  error is built from a message alone.\<close>

datatype gql_error = GraphQLError string "error_code option"

text \<open>What a \<open>try\<close> block can throw: an error of the resolver's own, mongoose's
  \<open>CastError\<close>, or any other failure of the store.\<close>

datatype thrown = Thrown gql_error | CastError | StoreFailure

text \<open>The calls a resolver makes to the store, in the order it makes them.\<close>

datatype store_call =
    Order_aggregate
  | Customer_findById string
  | Product_findById string
  | Order_findById string

text \<open>\<open>Order.aggregate(pipeline)\<close> rejects when the store does not answer or when a stage
  of the pipeline raises.\<close>

definition aggregate :: "store \<Rightarrow> (store \<Rightarrow> thrown + 'r list) \<Rightarrow> thrown + 'r list" where
  "aggregate st pipeline = (if online st then pipeline st else Inl StoreFailure)"

definition findById :: "store \<Rightarrow> (string \<Rightarrow> 'd option) \<Rightarrow> string \<Rightarrow> thrown + 'd option" where
  "findById st coll ident =
     (if \<not> keyFormat st ident then Inl CastError
      else if \<not> online st then Inl StoreFailure
      else Inr (coll ident))"

section \<open>Aggregation stages\<close>

text \<open>A stage that can raise on a document: the first document on which it raises stops
  the pipeline.\<close>

fun run_stage :: "('a \<Rightarrow> thrown + 'b) \<Rightarrow> 'a list \<Rightarrow> thrown + 'b list" where
  "run_stage stage [] = Inr []"
| "run_stage stage (d # ds) =
     (case stage d of
        Inl err \<Rightarrow> Inl err
      | Inr v \<Rightarrow> map_sum id (Cons v) (run_stage stage ds))"

text \<open>\<open>$divide\<close> raises on a zero divisor; otherwise the quotient is the store's.\<close>

definition divide_stage :: "store \<Rightarrow> number \<Rightarrow> number \<Rightarrow> thrown + number" where
  "divide_stage st x y = (if y = 0 then Inl StoreFailure else Inr (storeDivide st x y))"

text \<open>\<open>$group\<close>: the documents are put into their group one after the other; a group keeps
  its members in the order they arrived, and the groups stand in the order of their first
  member. (The store leaves the order of the groups open; the pipelines sort them.)\<close>

fun insert_group :: "'k \<Rightarrow> 'a \<Rightarrow> ('k \<times> 'a list) list \<Rightarrow> ('k \<times> 'a list) list" where
  "insert_group k x [] = [(k, [x])]"
| "insert_group k x ((k', ms) # gs) =
     (if k = k' then (k', ms @ [x]) # gs else (k', ms) # insert_group k x gs)"

definition group_by :: "('a \<Rightarrow> 'k) \<Rightarrow> 'a list \<Rightarrow> ('k \<times> 'a list) list" where
  "group_by key xs = foldl (\<lambda>gs x. insert_group (key x) x gs) [] xs"

text \<open>\<open>$sort: { field: -1 }\<close>: descending by the field. Documents with equal fields keep
  their order here; the store promises no order among them.\<close>

definition sort_desc :: "('a \<Rightarrow> 'b::linordered_idom) \<Rightarrow> 'a list \<Rightarrow> 'a list" where
  "sort_desc key xs = sort_key (\<lambda>x. - key x) xs"

text \<open>\<open>parseFloat(x.toFixed(2))\<close>: the nearest multiple of 1/100, a tie going away from
  zero.\<close>

definition toFixed2 :: "number \<Rightarrow> number" where
  "toFixed2 x =
     (if x < 0 then - (of_int \<lfloor>(- x) * 100 + 1 / 2\<rfloor> / 100)
      else of_int \<lfloor>x * 100 + 1 / 2\<rfloor> / 100)"

text \<open>\<open>$round: [x, 2]\<close>: the nearest multiple of 1/100, a tie going to the even one.\<close>

definition round_half_even :: "number \<Rightarrow> int" where
  "round_half_even y =
     (let f = \<lfloor>y\<rfloor>; d = y - of_int f
      in if d < 1 / 2 then f
         else if 1 / 2 < d then f + 1
         else if even f then f else f + 1)"

definition round2 :: "number \<Rightarrow> number" where
  "round2 x = of_int (round_half_even (x * 100)) / 100"

text \<open>\<open>$unwind: '$products'\<close>: one document per line item, the order beside it.\<close>

definition unwind_products :: "order list \<Rightarrow> (order \<times> orderItem) list" where
  "unwind_products os = concat (map (\<lambda>ord. map (\<lambda>i. (ord, i)) (products ord)) os)"

text \<open>\<open>$lookup\<close> from \<open>products\<close> on \<open>_id\<close>, then \<open>$unwind: '$productInfo'\<close>: the
  document is kept once per matching product, so it is dropped when there is none.\<close>

definition lookup_unwind :: "store \<Rightarrow> ('a \<Rightarrow> string) \<Rightarrow> 'a list \<Rightarrow> ('a \<times> product) list" where
  "lookup_unwind st localField ds =
     concat (map (\<lambda>d. case Products st (localField d) of None \<Rightarrow> [] | Some p \<Rightarrow> [(d, p)]) ds)"

section \<open>Query 2: getTopSellingProducts\<close>

text \<open>\<open>resolvers.js\<close>, lines 113 to 159. The stages are \<open>$unwind\<close>, \<open>$group\<close>,
  \<open>$sort\<close>, \<open>$limit\<close>, \<open>$lookup\<close> with \<open>$unwind\<close>, and \<open>$project\<close>: the limit is taken
  before the join.\<close>

record topProduct =
  tp_productId :: string
  tp_name :: string
  totalSold :: number

definition topSellingPipeline :: "int \<Rightarrow> store \<Rightarrow> topProduct list" where
  "topSellingPipeline limit st =
     (let unwound = unwind_products (Orders st);
          grouped = map (\<lambda>(k, ms). (k, sum_list (map (\<lambda>m. quantity (snd m)) ms)))
                      (group_by (\<lambda>m. productId (snd m)) unwound);
          sorted_groups = sort_desc snd grouped;
          limited = take (nat limit) sorted_groups;
          joined = lookup_unwind st fst limited
      in map (\<lambda>(g, p). \<lparr>tp_productId = fst g, tp_name = name p, totalSold = snd g\<rparr>) joined)"

text \<open>\<open>limit\<close> is \<open>None\<close> when the argument is absent. No stage of the pipeline can
  raise.\<close>

definition getTopSellingProducts ::
  "store \<Rightarrow> int option \<Rightarrow> (gql_error + topProduct list) \<times> store_call list" where
  "getTopSellingProducts st limit =
     (case limit of
        None \<Rightarrow> (Inl (GraphQLError ''Limit must be a positive integer'' (Some BAD_USER_INPUT)), [])
      | Some n \<Rightarrow>
          if n = 0 \<or> n \<le> 0
          then (Inl (GraphQLError ''Limit must be a positive integer'' (Some BAD_USER_INPUT)), [])
          else (case aggregate st (\<lambda>s. Inr (topSellingPipeline n s)) of
                  Inr results \<Rightarrow> (Inr results, [Order_aggregate])
                | Inl err \<Rightarrow>
                    (Inl (GraphQLError ''Could not fetch top selling products.''
                            (Some INTERNAL_SERVER_ERROR)), [Order_aggregate])))"

section \<open>Query 1: getCustomerSpending\<close>

text \<open>\<open>resolvers.js\<close>, lines 43 to 110. The stages are \<open>$match\<close>, \<open>$sort\<close>, \<open>$group\<close>
  and \<open>$project\<close>.\<close>

record customerSpending =
  cs_customerId :: string
  totalSpent :: number
  averageOrderValue :: number
  lastOrderDate :: "timestamp option"

text \<open>The document a \<open>$group\<close> of the spending pipeline yields. \<open>$sum: '$totalAmount'\<close>
  is the store's sum of the amounts of the members in their order, \<open>$sum: 1\<close> counts them,
  and \<open>$first\<close> reads the first member of the group.\<close>

record spendingGroup =
  sg_id :: string
  sg_totalSpent :: number
  orderCount :: nat
  sg_lastOrderDate :: "timestamp option"

definition spendingGroupOf :: "store \<Rightarrow> string \<times> order list \<Rightarrow> spendingGroup" where
  "spendingGroupOf st g =
     \<lparr>sg_id = fst g,
      sg_totalSpent = storeSum st (map totalAmount (snd g)),
      orderCount = length (snd g),
      sg_lastOrderDate = (case snd g of [] \<Rightarrow> None | m # _ \<Rightarrow> Some (orderDate m))\<rparr>"

text \<open>\<open>$project\<close> with the average under \<open>$cond\<close>: the division is evaluated only when
  the order count is not 0.\<close>

definition spendingProject :: "store \<Rightarrow> spendingGroup \<Rightarrow> thrown + customerSpending" where
  "spendingProject st g =
     (case (if orderCount g = 0 then Inr 0
            else divide_stage st (sg_totalSpent g) (of_nat (orderCount g))) of
        Inl err \<Rightarrow> Inl err
      | Inr average \<Rightarrow>
          Inr \<lparr>cs_customerId = sg_id g,
               totalSpent = sg_totalSpent g,
               averageOrderValue = average,
               lastOrderDate = sg_lastOrderDate g\<rparr>)"

definition spendingPipeline :: "string \<Rightarrow> store \<Rightarrow> thrown + customerSpending list" where
  "spendingPipeline cid st =
     (let matched = filter (\<lambda>ord. customerId ord = cid) (Orders st);
          sorted_orders = sort_desc orderDate matched;
          grouped = map (spendingGroupOf st) (group_by customerId sorted_orders)
      in run_stage (spendingProject st) grouped)"

text \<open>The body of the \<open>try\<close> block: what it returns or throws, and the store calls made.\<close>

definition getCustomerSpending_try ::
  "store \<Rightarrow> string \<Rightarrow> (thrown + customerSpending) \<times> store_call list" where
  "getCustomerSpending_try st cid =
     (case aggregate st (spendingPipeline cid) of
        Inl err \<Rightarrow> (Inl err, [Order_aggregate])
      | Inr (r # _) \<Rightarrow>
          (Inr (r\<lparr>totalSpent := toFixed2 (totalSpent r),
                  averageOrderValue := toFixed2 (averageOrderValue r)\<rparr>), [Order_aggregate])
      | Inr [] \<Rightarrow>
          (case findById st (Customers st) cid of
             Inl err \<Rightarrow> (Inl err, [Order_aggregate, Customer_findById cid])
           | Inr None \<Rightarrow>
               (Inl (Thrown (GraphQLError ''Customer not found'' (Some NOT_FOUND))),
                [Order_aggregate, Customer_findById cid])
           | Inr (Some c) \<Rightarrow>
               (Inr \<lparr>cs_customerId = cid, totalSpent = 0, averageOrderValue = 0,
                     lastOrderDate = None\<rparr>,
                [Order_aggregate, Customer_findById cid])))"

text \<open>The \<open>catch\<close> block: a \<open>CastError\<close> becomes \<open>BAD_USER_INPUT\<close>, everything else
  that was thrown becomes \<open>INTERNAL_SERVER_ERROR\<close>.\<close>

definition getCustomerSpending_catch :: "thrown \<Rightarrow> gql_error" where
  "getCustomerSpending_catch err =
     (if err = CastError
      then GraphQLError ''Invalid Customer ID format'' (Some BAD_USER_INPUT)
      else GraphQLError ''Could not fetch customer spending data.'' (Some INTERNAL_SERVER_ERROR))"

text \<open>\<open>customerId\<close> is \<open>None\<close> when the argument is absent.\<close>

definition getCustomerSpending ::
  "store \<Rightarrow> string option \<Rightarrow> (gql_error + customerSpending) \<times> store_call list" where
  "getCustomerSpending st customerId_arg =
     (case customerId_arg of
        None \<Rightarrow> (Inl (GraphQLError ''Customer ID is required'' (Some BAD_USER_INPUT)), [])
      | Some cid \<Rightarrow>
          if cid = []
          then (Inl (GraphQLError ''Customer ID is required'' (Some BAD_USER_INPUT)), [])
          else (case getCustomerSpending_try st cid of
                  (Inr r, calls) \<Rightarrow> (Inr r, calls)
                | (Inl err, calls) \<Rightarrow> (Inl (getCustomerSpending_catch err), calls)))"

section \<open>Query 3: getSalesAnalytics\<close>

text \<open>\<open>resolvers.js\<close>, lines 162 to 273.\<close>

record categoryRevenue =
  cr_category :: string
  revenue :: number

record salesAnalytics =
  totalRevenue :: number
  completedOrders :: nat
  categoryBreakdown :: "categoryRevenue list"

definition matchStage :: "timestamp \<Rightarrow> timestamp \<Rightarrow> order list \<Rightarrow> order list" where
  "matchStage start end_date os =
     filter (\<lambda>ord. status ord = ''completed'' \<and> start \<le> orderDate ord \<and> orderDate ord < end_date) os"

text \<open>\<open>$group\<close> with \<open>_id: null\<close>: one group of all the documents, none when there is no
  document.\<close>

definition overallAnalyticsPipeline ::
  "timestamp \<Rightarrow> timestamp \<Rightarrow> store \<Rightarrow> (number \<times> nat) list" where
  "overallAnalyticsPipeline start end_date st =
     map (\<lambda>(k, ms). (sum_list (map totalAmount ms), length ms))
       (group_by (\<lambda>ord. ()) (matchStage start end_date (Orders st)))"

definition categoryBreakdownPipeline ::
  "timestamp \<Rightarrow> timestamp \<Rightarrow> store \<Rightarrow> categoryRevenue list" where
  "categoryBreakdownPipeline start end_date st =
     (let unwound = unwind_products (matchStage start end_date (Orders st));
          projected = map (\<lambda>(ord, i). (productId i, quantity i * priceAtPurchase i)) unwound;
          joined = lookup_unwind st fst projected;
          grouped = map (\<lambda>(k, ms). (k, sum_list (map (\<lambda>m. snd (fst m)) ms)))
                      (group_by (\<lambda>m. category (snd m)) joined);
          rounded = map (\<lambda>(k, r). \<lparr>cr_category = k, revenue = round2 r\<rparr>) grouped
      in sort_desc revenue rounded)"

text \<open>The body of the \<open>try\<close> block. \<open>parse\<close> is the time value of \<open>new Date(s)\<close>,
  \<open>None\<close> for \<open>NaN\<close>. Both pipelines are started before either is awaited, and no stage
  of either can raise.\<close>

definition getSalesAnalytics_try ::
  "(string \<Rightarrow> timestamp option) \<Rightarrow> store \<Rightarrow> string \<Rightarrow> string
     \<Rightarrow> (thrown + salesAnalytics) \<times> store_call list" where
  "getSalesAnalytics_try parse st startDate endDate =
     (case (parse startDate, parse endDate) of
        (Some start, Some end_date) \<Rightarrow>
          if start \<ge> end_date
          then (Inl (Thrown (GraphQLError ''Start date must be before end date''
                               (Some BAD_USER_INPUT))), [])
          else (case (aggregate st (\<lambda>s. Inr (overallAnalyticsPipeline start end_date s)),
                      aggregate st (\<lambda>s. Inr (categoryBreakdownPipeline start end_date s))) of
                  (Inr overallResult, Inr categoryResult) \<Rightarrow>
                    (Inr \<lparr>totalRevenue =
                            (case overallResult of [] \<Rightarrow> 0 | r # _ \<Rightarrow> toFixed2 (fst r)),
                          completedOrders =
                            (case overallResult of [] \<Rightarrow> 0 | r # _ \<Rightarrow> snd r),
                          categoryBreakdown =
                            map (\<lambda>item. item\<lparr>revenue := toFixed2 (revenue item)\<rparr>)
                              categoryResult\<rparr>,
                     [Order_aggregate, Order_aggregate])
                | (Inl err, _) \<Rightarrow> (Inl err, [Order_aggregate, Order_aggregate])
                | (_, Inl err) \<Rightarrow> (Inl err, [Order_aggregate, Order_aggregate]))
      | _ \<Rightarrow>
          (Inl (Thrown (GraphQLError
             ''Invalid date format. Please use ISO 8601 format (YYYY-MM-DDTHH:mm:ss.sssZ)''
             (Some BAD_USER_INPUT))), []))"

text \<open>The \<open>catch\<close> block throws a \<open>GraphQLError\<close> again as it is.\<close>

definition getSalesAnalytics_catch :: "thrown \<Rightarrow> gql_error" where
  "getSalesAnalytics_catch err =
     (case err of
        Thrown e \<Rightarrow> e
      | _ \<Rightarrow> GraphQLError ''Could not fetch sales analytics.'' (Some INTERNAL_SERVER_ERROR))"

definition getSalesAnalytics ::
  "(string \<Rightarrow> timestamp option) \<Rightarrow> store \<Rightarrow> string \<Rightarrow> string
     \<Rightarrow> (gql_error + salesAnalytics) \<times> store_call list" where
  "getSalesAnalytics parse st startDate endDate =
     (case getSalesAnalytics_try parse st startDate endDate of
        (Inr r, calls) \<Rightarrow> (Inr r, calls)
      | (Inl err, calls) \<Rightarrow> (Inl (getSalesAnalytics_catch err), calls))"

section \<open>Point lookups\<close>

text \<open>\<open>resolvers.js\<close>, lines 275 to 313. \<open>getCustomer\<close>, \<open>getProduct\<close> and
  \<open>getOrder\<close> have one shape: \<open>findById\<close>, a
  \<open>NOT_FOUND\<close> error thrown inside the \<open>try\<close> block when there is no document, and a
  \<open>catch\<close> block that turns a \<open>CastError\<close> into \<open>BAD_USER_INPUT\<close> and everything else
  into an error with a message and no code.\<close>

definition lookup_try ::
  "store \<Rightarrow> (string \<Rightarrow> 'd option) \<Rightarrow> string \<Rightarrow> string \<Rightarrow> thrown + 'd" where
  "lookup_try st coll what ident =
     (case findById st coll ident of
        Inl err \<Rightarrow> Inl err
      | Inr None \<Rightarrow> Inl (Thrown (GraphQLError (what @ '' not found'') (Some NOT_FOUND)))
      | Inr (Some d) \<Rightarrow> Inr d)"

definition lookup_catch :: "string \<Rightarrow> string \<Rightarrow> thrown \<Rightarrow> gql_error" where
  "lookup_catch what lower err =
     (if err = CastError
      then GraphQLError (''Invalid '' @ what @ '' ID format'') (Some BAD_USER_INPUT)
      else GraphQLError (''Error fetching '' @ lower) None)"

definition getCustomer :: "store \<Rightarrow> string \<Rightarrow> (gql_error + customer) \<times> store_call list" where
  "getCustomer st ident =
     (case lookup_try st (Customers st) ''Customer'' ident of
        Inr c \<Rightarrow> (Inr c, [Customer_findById ident])
      | Inl err \<Rightarrow> (Inl (lookup_catch ''Customer'' ''customer'' err), [Customer_findById ident]))"

definition getProduct :: "store \<Rightarrow> string \<Rightarrow> (gql_error + product) \<times> store_call list" where
  "getProduct st ident =
     (case lookup_try st (Products st) ''Product'' ident of
        Inr p \<Rightarrow> (Inr p, [Product_findById ident])
      | Inl err \<Rightarrow> (Inl (lookup_catch ''Product'' ''product'' err), [Product_findById ident]))"

definition getOrder :: "store \<Rightarrow> string \<Rightarrow> (gql_error + order) \<times> store_call list" where
  "getOrder st ident =
     (case lookup_try st (\<lambda>i. find (\<lambda>ord. order_id ord = i) (Orders st)) ''Order'' ident of
        Inr ord \<Rightarrow> (Inr ord, [Order_findById ident])
      | Inl err \<Rightarrow> (Inl (lookup_catch ''Order'' ''order'' err), [Order_findById ident]))"

section \<open>Derived notions used in the statements\<close>

text \<open>All line items of all orders, whatever the status of the order.\<close>

definition lineItems :: "store \<Rightarrow> orderItem list" where
  "lineItems st = concat (map products (Orders st))"

text \<open>The groups of the top-selling pipeline after its \<open>$group\<close> stage.\<close>

definition soldGroups :: "store \<Rightarrow> (string \<times> number) list" where
  "soldGroups st =
     map (\<lambda>(k, ms). (k, sum_list (map (\<lambda>m. quantity (snd m)) ms)))
       (group_by (\<lambda>m. productId (snd m)) (unwind_products (Orders st)))"

text \<open>The quantity sold of one product over all line items.\<close>

definition soldOf :: "store \<Rightarrow> string \<Rightarrow> number" where
  "soldOf st pid = sum_list (map quantity (filter (\<lambda>i. productId i = pid) (lineItems st)))"

text \<open>The orders of one customer.\<close>

definition ordersOf :: "store \<Rightarrow> string \<Rightarrow> order list" where
  "ordersOf st cid = filter (\<lambda>ord. customerId ord = cid) (Orders st)"

text \<open>The amounts of the orders of one customer, latest order first: what the \<open>$sum\<close>
  accumulator of the spending pipeline is given.\<close>

definition amountsOf :: "store \<Rightarrow> string \<Rightarrow> number list" where
  "amountsOf st cid = map totalAmount (sort_desc orderDate (ordersOf st cid))"

text \<open>The revenue of one category over the line items of the given orders: quantity times
  price at purchase, summed over the line items whose product the store holds with that category.\<close>

definition categoryRevenueOf :: "store \<Rightarrow> order list \<Rightarrow> string \<Rightarrow> number" where
  "categoryRevenueOf st os c =
     sum_list (map (\<lambda>i. quantity i * priceAtPurchase i)
       (filter (\<lambda>i. map_option category (Products st (productId i)) = Some c)
          (concat (map products os))))"

text \<open>The documents of the category pipeline after its \<open>$lookup\<close> and \<open>$unwind\<close> stages.\<close>

definition joinedItems :: "store \<Rightarrow> order list \<Rightarrow> ((string \<times> number) \<times> product) list" where
  "joinedItems st os =
     lookup_unwind st fst
       (map (\<lambda>(ord, i). (productId i, quantity i * priceAtPurchase i)) (unwind_products os))"

text \<open>The groups of the category pipeline after its \<open>$group\<close> stage.\<close>

definition revenueGroups :: "store \<Rightarrow> order list \<Rightarrow> (string \<times> number) list" where
  "revenueGroups st os =
     map (\<lambda>(k, ms). (k, sum_list (map (\<lambda>m. snd (fst m)) ms)))
       (group_by (\<lambda>m. category (snd m)) (joinedItems st os))"

text \<open>The store with every line item of one product taken out of its orders.\<close>

definition withoutProduct :: "string \<Rightarrow> store \<Rightarrow> store" where
  "withoutProduct pid st =
     st\<lparr>Orders := map (\<lambda>ord. ord\<lparr>products := filter (\<lambda>i. productId i \<noteq> pid) (products ord)\<rparr>)
                      (Orders st)\<rparr>"

section \<open>Example data\<close>

text \<open>Two products, two customers (\<open>c2\<close> has no order), and three orders: one line item
  names the product \<open>p9\<close>, which the store does not hold, and one order names the customer
  \<open>c7\<close>, which the store does not hold either.\<close>

definition demo_products :: "string \<rightharpoonup> product" where
  "demo_products = map_of
     [(''p1'', \<lparr>name = ''Laptop'', category = ''Electronics'', price = 1000, stock = 5\<rparr>),
      (''p2'', \<lparr>name = ''Mug'', category = ''Kitchen'', price = 10, stock = 50\<rparr>)]"

definition demo_customers :: "string \<rightharpoonup> customer" where
  "demo_customers = map_of
     [(''c1'', \<lparr>customer_name = ''Ada'', email = ''ada@example.com'', age = Some 36,
               location = None, gender = None\<rparr>),
      (''c2'', \<lparr>customer_name = ''Bob'', email = ''bob@example.com'', age = None,
               location = None, gender = None\<rparr>)]"

definition demo_orders :: "order list" where
  "demo_orders =
     [\<lparr>order_id = ''o1'', customerId = ''c1'',
       products = [\<lparr>productId = ''p1'', quantity = 3, priceAtPurchase = 1000\<rparr>,
                   \<lparr>productId = ''p9'', quantity = 9, priceAtPurchase = 5\<rparr>],
       totalAmount = 3045, orderDate = 1000, status = ''completed''\<rparr>,
      \<lparr>order_id = ''o2'', customerId = ''c1'',
       products = [\<lparr>productId = ''p2'', quantity = 1, priceAtPurchase = 10\<rparr>,
                   \<lparr>productId = ''p1'', quantity = 5, priceAtPurchase = 900\<rparr>],
       totalAmount = 4510, orderDate = 2000, status = ''completed''\<rparr>,
      \<lparr>order_id = ''o3'', customerId = ''c7'',
       products = [\<lparr>productId = ''p2'', quantity = 4, priceAtPurchase = 10\<rparr>],
       totalAmount = 40, orderDate = 1500, status = ''pending''\<rparr>]"

definition demo_store :: store where
  "demo_store = \<lparr>Customers = demo_customers, Products = demo_products, Orders = demo_orders,
                  keyFormat = (\<lambda>i. True), online = True,
                  storeSum = sum_list, storeDivide = (\<lambda>x y. x / y)\<rparr>"



text \<open>Two orders of 100 and 50 of the customer \<open>c7\<close>, which the store does not hold: the
  sum 150 and the average 75 are exact in doubles.\<close>

definition orphan_orders :: "order list" where
  "orphan_orders =
     [\<lparr>order_id = ''a1'', customerId = ''c7'', products = [],
       totalAmount = 100, orderDate = 1000, status = ''completed''\<rparr>,
      \<lparr>order_id = ''a2'', customerId = ''c7'', products = [],
       totalAmount = 50, orderDate = 2000, status = ''pending''\<rparr>]"

definition orphan_store :: store where
  "orphan_store = demo_store\<lparr>Orders := orphan_orders\<rparr>"

text \<open>A date parser that knows two instants and takes every other string for an invalid date.\<close>

definition demo_parse :: "string \<Rightarrow> timestamp option" where
  "demo_parse = map_of
     [(''1970-01-01T00:00:01.000Z'', 1000), (''1970-01-01T00:00:02.000Z'', 2000)]"

lemmas demo_defs = demo_store_def demo_orders_def demo_products_def demo_customers_def


lemmas orphan_defs = orphan_store_def orphan_orders_def demo_defs

lemmas stage_defs = unwind_products_def group_by_def sort_desc_def lookup_unwind_def
  aggregate_def findById_def

section \<open>Grouping and sorting\<close>

lemma group_by_snoc:
  "group_by key (xs @ [x]) = insert_group (key x) x (group_by key xs)"
  by (simp add: group_by_def)

lemma insert_group_keys:
  "map fst (insert_group k x gs) = (if k \<in> set (map fst gs) then map fst gs else map fst gs @ [k])"
  by (induction gs) force+

lemma insert_group_distinct:
  "distinct (map fst gs) \<Longrightarrow> distinct (map fst (insert_group k x gs))"
  by (simp add: insert_group_keys)

lemma insert_group_map_of:
  "map_of (insert_group k x gs) k' =
     (if k' = k then Some (case map_of gs k of None \<Rightarrow> [x] | Some ms \<Rightarrow> ms @ [x])
      else map_of gs k')"
  by (induction gs) auto

lemma group_by_distinct: "distinct (map fst (group_by key xs))"
proof (induction xs rule: rev_induct)
  case Nil
  show ?case by (simp add: group_by_def)
next
  case (snoc x xs)
  then show ?case by (simp add: group_by_snoc insert_group_distinct)
qed

lemma group_by_map_of:
  "map_of (group_by key xs) k =
     (if k \<in> key ` set xs then Some (filter (\<lambda>x. key x = k) xs) else None)"
proof (induction xs rule: rev_induct)
  case Nil
  show ?case by (simp add: group_by_def)
next
  case (snoc x xs)
  show ?case
  proof (cases "k = key x")
    case True
    have "key x \<notin> key ` set xs \<Longrightarrow> filter (\<lambda>y. key y = key x) xs = []"
      by (auto simp: filter_empty_conv intro: rev_image_eqI)
    then show ?thesis
      using snoc True by (simp add: group_by_snoc insert_group_map_of)
  next
    case False
    then show ?thesis
      using snoc by (auto simp: group_by_snoc insert_group_map_of)
  qed
qed

lemma group_by_member:
  "(k, ms) \<in> set (group_by key xs) \<longleftrightarrow> k \<in> key ` set xs \<and> ms = filter (\<lambda>x. key x = k) xs"
proof -
  have "(k, ms) \<in> set (group_by key xs) \<longleftrightarrow> map_of (group_by key xs) k = Some ms"
    using group_by_distinct [of key xs] by simp
  then show ?thesis by (auto simp: group_by_map_of)
qed

lemma group_by_single_key:
  assumes "\<forall>x \<in> set xs. key x = k"
  shows "group_by key xs = (if xs = [] then [] else [(k, xs)])"
  using assms
proof (induction xs rule: rev_induct)
  case Nil
  show ?case by (simp add: group_by_def)
next
  case (snoc x xs)
  then show ?case by (auto simp: group_by_snoc)
qed

lemma set_sort_desc: "set (sort_desc key xs) = set xs"
  by (simp add: sort_desc_def)

lemma length_sort_desc: "length (sort_desc key xs) = length xs"
  by (simp add: sort_desc_def)

lemma sort_desc_nil_iff: "sort_desc key xs = [] \<longleftrightarrow> xs = []"
  using length_sort_desc [of key xs] by (metis length_0_conv)

lemma sorted_sort_desc: "sorted_wrt (\<lambda>a b. key b \<le> key a) (sort_desc key xs)"
proof -
  have "sorted (map (\<lambda>x. - key x) (sort_desc key xs))"
    unfolding sort_desc_def by (rule sorted_sort_key)
  then show ?thesis by (simp add: sorted_map)
qed

lemma distinct_map_insort_key:
  "distinct (map g (insort_key f x xs)) \<longleftrightarrow> distinct (map g (x # xs))"
  by (induction xs) (auto simp: set_insort_key)

lemma distinct_map_sort_key:
  "distinct (map g (sort_key f xs)) \<longleftrightarrow> distinct (map g xs)"
  by (induction xs) (simp_all add: distinct_map_insort_key)

lemma distinct_map_sort_desc:
  "distinct (map g (sort_desc key xs)) \<longleftrightarrow> distinct (map g xs)"
  by (simp add: sort_desc_def distinct_map_sort_key)

lemma hd_sort_desc:
  fixes key :: "'a \<Rightarrow> 'b::linordered_idom"
  assumes "xs \<noteq> []"
  shows "sort_desc key xs \<noteq> []" 
    and "hd (sort_desc key xs) \<in> set xs"
    and "\<forall>x \<in> set xs. key x \<le> key (hd (sort_desc key xs))"
proof -
  show ne: "sort_desc key xs \<noteq> []"
    using assms by (simp add: sort_desc_nil_iff)
  then obtain y ys where ys: "sort_desc key xs = y # ys"
    by (cases "sort_desc key xs") auto
  then show "hd (sort_desc key xs) \<in> set xs"
    using set_sort_desc [of key xs] by auto
  have "sorted_wrt (\<lambda>a b. key b \<le> key a) (y # ys)"
    using sorted_sort_desc [of key xs] ys by simp
  then have "\<forall>x \<in> set (y # ys). key x \<le> key y"
    by auto
  then have "\<forall>x \<in> set (sort_desc key xs). key x \<le> key (hd (sort_desc key xs))"
    by (simp only: ys list.sel)
  then show "\<forall>x \<in> set xs. key x \<le> key (hd (sort_desc key xs))"
    by (simp only: set_sort_desc)
qed

lemma hd_sort_desc_Max:
  assumes "xs \<noteq> []"
  shows "orderDate (hd (sort_desc orderDate xs)) = Max (orderDate ` set xs)"
proof -
  have "orderDate (hd (sort_desc orderDate xs)) \<in> orderDate ` set xs"
    using hd_sort_desc(2) [OF assms, of orderDate] by simp
  moreover have "\<forall>d \<in> orderDate ` set xs. d \<le> orderDate (hd (sort_desc orderDate xs))"
    using hd_sort_desc(3) [OF assms, of orderDate] by simp
  ultimately show ?thesis
    by (intro Max_eqI [symmetric]) auto
qed

lemma take_drop_sorted:
  assumes "sorted_wrt P xs" and "x \<in> set (take n xs)" and "y \<in> set xs" and "y \<notin> set (take n xs)"
  shows "P x y"
proof -
  have "y \<in> set (drop n xs)"
    using assms(3,4) by (metis Un_iff append_take_drop_id set_append)
  moreover have "sorted_wrt P (take n xs @ drop n xs)"
    using assms(1) by simp
  then have "\<forall>a \<in> set (take n xs). \<forall>b \<in> set (drop n xs). P a b"
    unfolding sorted_wrt_append by blast
  ultimately show ?thesis
    using assms(2) by blast
qed

section \<open>Joining with the products\<close>

lemma lookup_unwind_Nil: "lookup_unwind st f [] = []"
  by (simp add: lookup_unwind_def)

lemma lookup_unwind_Cons:
  "lookup_unwind st f (x # xs) =
     (case Products st (f x) of None \<Rightarrow> [] | Some p \<Rightarrow> [(x, p)]) @ lookup_unwind st f xs"
  by (simp add: lookup_unwind_def)

lemma lookup_unwind_member:
  "(d, p) \<in> set (lookup_unwind st f ds) \<longleftrightarrow> d \<in> set ds \<and> Products st (f d) = Some p"
  by (induction ds) (auto simp: lookup_unwind_def split: option.splits)

lemma lookup_unwind_length: "length (lookup_unwind st f ds) \<le> length ds"
  by (induction ds) (auto simp: lookup_unwind_def split: option.splits)

lemma lookup_unwind_fst: "map fst (lookup_unwind st f ds) = filter (\<lambda>d. Products st (f d) \<noteq> None) ds"
  by (induction ds) (auto simp: lookup_unwind_def split: option.splits)

lemma sorted_wrt_lookup_unwind:
  assumes "sorted_wrt P ds"
  shows "sorted_wrt (\<lambda>a b. P (fst a) (fst b)) (lookup_unwind st f ds)"
proof -
  have "sorted_wrt P (map fst (lookup_unwind st f ds))"
    using assms by (simp add: lookup_unwind_fst sorted_wrt_filter)
  then show ?thesis by (simp add: sorted_wrt_map)
qed

lemma lookup_unwind_drop_unmatched:
  assumes "Products st pid = None"
  shows "lookup_unwind st fst (map (\<lambda>i. (productId i, quantity i * priceAtPurchase i))
                                 (filter (\<lambda>i. productId i \<noteq> pid) items))
       = lookup_unwind st fst (map (\<lambda>i. (productId i, quantity i * priceAtPurchase i)) items)"
  using assms
  by (induction items) (simp_all add: lookup_unwind_Cons lookup_unwind_Nil)

lemma snd_unwind_products: "map snd (unwind_products os) = concat (map products os)"
  by (induction os) (simp_all add: unwind_products_def comp_def)

section \<open>Rounding\<close>

lemma floor_rat_numeral: "\<lfloor>numeral a / numeral b :: rat\<rfloor> = numeral a div numeral b"
  using floor_divide_of_int_eq [of "numeral a" "numeral b", where ?'a = rat] by simp

lemma toFixed2_zero: "toFixed2 0 = 0"
proof -
  have "\<lfloor>1 / 2 :: rat\<rfloor> = 0"
    using floor_divide_of_int_eq [of 1 2, where ?'a = rat] by simp
  then show ?thesis by (simp add: toFixed2_def)
qed


section \<open>The top-selling pipeline\<close>

lemma sum_filter_unwind:
  "sum_list (map (\<lambda>m. quantity (snd m)) (filter (\<lambda>m. productId (snd m) = k) ms))
     = sum_list (map quantity (filter (\<lambda>i. productId i = k) (map snd ms)))"
  by (induction ms) simp_all

lemma soldGroups_member:
  "(k, t) \<in> set (soldGroups st) \<longleftrightarrow> k \<in> productId ` set (lineItems st) \<and> t = soldOf st k"
proof -
  let ?u = "unwind_products (Orders st)"
  have keys: "(\<lambda>m. productId (snd m)) ` set ?u = productId ` set (lineItems st)"
    unfolding lineItems_def snd_unwind_products [symmetric] by (simp add: image_image)
  have "(k, t) \<in> set (soldGroups st) \<longleftrightarrow>
          (\<exists>ms. (k, ms) \<in> set (group_by (\<lambda>m. productId (snd m)) ?u)
                \<and> t = sum_list (map (\<lambda>m. quantity (snd m)) ms))"
    by (auto simp: soldGroups_def)
  also have "\<dots> \<longleftrightarrow> k \<in> productId ` set (lineItems st) \<and> t = soldOf st k"
    by (simp add: group_by_member keys sum_filter_unwind soldOf_def lineItems_def
          snd_unwind_products)
  finally show ?thesis .
qed

lemma soldGroups_distinct: "distinct (map fst (soldGroups st))"
proof -
  have "map fst (soldGroups st) = map fst (group_by (\<lambda>m. productId (snd m)) (unwind_products (Orders st)))"
    by (simp add: soldGroups_def comp_def case_prod_unfold)
  then show ?thesis by (simp add: group_by_distinct)
qed

lemma topSellingPipeline_eq:
  "topSellingPipeline n st =
     map (\<lambda>(g, p). \<lparr>tp_productId = fst g, tp_name = name p, totalSold = snd g\<rparr>)
       (lookup_unwind st fst (take (nat n) (sort_desc snd (soldGroups st))))"
  by (simp add: topSellingPipeline_def soldGroups_def Let_def)

section \<open>The spending pipeline\<close>

lemma spendingProject_total:
  "spendingProject st g =
     Inr \<lparr>cs_customerId = sg_id g, totalSpent = sg_totalSpent g,
          averageOrderValue =
            (if orderCount g = 0 then 0
             else storeDivide st (sg_totalSpent g) (of_nat (orderCount g))),
          lastOrderDate = sg_lastOrderDate g\<rparr>"
  by (simp add: spendingProject_def divide_stage_def)


lemma spendingPipeline_none:
  assumes "ordersOf st cid = []"
  shows "spendingPipeline cid st = Inr []"
  using assms by (simp add: spendingPipeline_def ordersOf_def sort_desc_def group_by_def)

lemma spendingPipeline_some:
  assumes "ordersOf st cid \<noteq> []"
  shows "spendingPipeline cid st = Inr
     [\<lparr>cs_customerId = cid,
       totalSpent = storeSum st (amountsOf st cid),
       averageOrderValue =
         storeDivide st (storeSum st (amountsOf st cid)) (of_nat (length (ordersOf st cid))),
       lastOrderDate = Some (Max (orderDate ` set (ordersOf st cid)))\<rparr>]"
proof -
  let ?ms = "ordersOf st cid"
  let ?s = "sort_desc orderDate ?ms"
  have ne: "?s \<noteq> []"
    using assms by (simp add: sort_desc_nil_iff)
  have "\<forall>ord \<in> set ?s. customerId ord = cid"
    by (simp add: set_sort_desc ordersOf_def)
  then have "group_by customerId ?s = (if ?s = [] then [] else [(cid, ?s)])"
    by (rule group_by_single_key)
  then have grp: "group_by customerId ?s = [(cid, ?s)]"
    using ne by simp
  have first: "(case ?s of [] \<Rightarrow> None | m # _ \<Rightarrow> Some (orderDate m)) = Some (Max (orderDate ` set ?ms))"
    using ne hd_sort_desc_Max [OF assms] by (cases ?s) auto
  have "spendingPipeline cid st = run_stage (spendingProject st) [spendingGroupOf st (cid, ?s)]"
    using grp by (simp add: spendingPipeline_def ordersOf_def)
  also have "\<dots> = Inr [\<lparr>cs_customerId = cid,
       totalSpent = storeSum st (amountsOf st cid),
       averageOrderValue =
         storeDivide st (storeSum st (amountsOf st cid)) (of_nat (length ?ms)),
       lastOrderDate = Some (Max (orderDate ` set ?ms))\<rparr>]"
    using assms first
    by (simp add: spendingProject_total spendingGroupOf_def amountsOf_def length_sort_desc)
  finally show ?thesis .
qed


section \<open>What the catch blocks let through\<close>

lemma getCustomerSpending_never_NOT_FOUND:
  "fst (getCustomerSpending st arg) \<noteq> Inl (GraphQLError msg (Some NOT_FOUND))"
proof (cases "getCustomerSpending_try st (the arg)")
  case (Pair res calls)
  then show ?thesis
    by (cases res)
      (auto simp: getCustomerSpending_def getCustomerSpending_catch_def
        split: option.splits if_splits)
qed

lemma lookup_catch_code:
  "lookup_catch what lower err \<noteq> GraphQLError msg (Some NOT_FOUND)"
  by (simp add: lookup_catch_def)

lemma point_lookup_never_NOT_FOUND:
  "fst (getCustomer st ident) \<noteq> Inl (GraphQLError msg (Some NOT_FOUND))"
  "fst (getProduct st ident) \<noteq> Inl (GraphQLError msg (Some NOT_FOUND))"
  "fst (getOrder st ident) \<noteq> Inl (GraphQLError msg (Some NOT_FOUND))"
  by (simp_all add: getCustomer_def getProduct_def getOrder_def lookup_catch_code
        split: sum.splits)

section \<open>The analytics pipelines\<close>

lemma joinedItems_items:
  "joinedItems st os =
     lookup_unwind st fst (map (\<lambda>i. (productId i, quantity i * priceAtPurchase i))
                             (concat (map products os)))"
proof -
  have "map (\<lambda>(ord, i). (productId i, quantity i * priceAtPurchase i)) (unwind_products os)
      = map (\<lambda>i. (productId i, quantity i * priceAtPurchase i)) (map snd (unwind_products os))"
    by (simp add: case_prod_unfold)
  then show ?thesis
    by (simp only: joinedItems_def snd_unwind_products)
qed

lemma joined_category_sum:
  "sum_list (map (\<lambda>m. snd (fst m))
       (filter (\<lambda>m. category (snd m) = c)
          (lookup_unwind st fst (map (\<lambda>i. (productId i, quantity i * priceAtPurchase i)) items))))
   = sum_list (map (\<lambda>i. quantity i * priceAtPurchase i)
       (filter (\<lambda>i. map_option category (Products st (productId i)) = Some c) items))"
  by (induction items) (auto simp: lookup_unwind_Cons lookup_unwind_Nil split: option.splits)

lemma joined_categories:
  "(\<lambda>m. category (snd m)) `
       set (lookup_unwind st fst (map (\<lambda>i. (productId i, quantity i * priceAtPurchase i)) items))
   = {c. \<exists>i \<in> set items. map_option category (Products st (productId i)) = Some c}"
  (is "?L = ?R")
proof (rule set_eqI)
  fix c
  have "c \<in> ?L \<longleftrightarrow> (\<exists>d p. (d, p) \<in> set (lookup_unwind st fst
            (map (\<lambda>i. (productId i, quantity i * priceAtPurchase i)) items)) \<and> category p = c)"
    by (force simp: image_iff)
  also have "\<dots> \<longleftrightarrow> (\<exists>i \<in> set items. \<exists>p. Products st (productId i) = Some p \<and> category p = c)"
    unfolding lookup_unwind_member by force
  also have "\<dots> \<longleftrightarrow> c \<in> ?R"
    by auto
  finally show "c \<in> ?L \<longleftrightarrow> c \<in> ?R" .
qed

lemma revenueGroups_member:
  "(k, t) \<in> set (revenueGroups st os) \<longleftrightarrow>
     (\<exists>i \<in> set (concat (map products os)). map_option category (Products st (productId i)) = Some k)
     \<and> t = categoryRevenueOf st os k"
proof -
  have "(k, t) \<in> set (revenueGroups st os) \<longleftrightarrow>
          (\<exists>ms. (k, ms) \<in> set (group_by (\<lambda>m. category (snd m)) (joinedItems st os))
                \<and> t = sum_list (map (\<lambda>m. snd (fst m)) ms))"
    by (auto simp: revenueGroups_def)
  also have "\<dots> \<longleftrightarrow>
     (\<exists>i \<in> set (concat (map products os)). map_option category (Products st (productId i)) = Some k)
     \<and> t = categoryRevenueOf st os k"
    unfolding group_by_member joinedItems_items joined_categories categoryRevenueOf_def
    by (simp add: joined_category_sum)
  finally show ?thesis .
qed


lemma categoryBreakdownPipeline_eq:
  "categoryBreakdownPipeline a b st =
     sort_desc revenue (map (\<lambda>(k, r). \<lparr>cr_category = k, revenue = round2 r\<rparr>)
                          (revenueGroups st (matchStage a b (Orders st))))"
  by (simp add: categoryBreakdownPipeline_def revenueGroups_def joinedItems_def Let_def)

lemma categoryBreakdownPipeline_joined:
  "categoryBreakdownPipeline a b st =
     sort_desc revenue (map (\<lambda>(k, r). \<lparr>cr_category = k, revenue = round2 r\<rparr>)
       (map (\<lambda>(k, ms). (k, sum_list (map (\<lambda>m. snd (fst m)) ms)))
          (group_by (\<lambda>m. category (snd m)) (joinedItems st (matchStage a b (Orders st))))))"
  by (simp add: categoryBreakdownPipeline_eq revenueGroups_def)

lemma overallAnalyticsPipeline_eq:
  "overallAnalyticsPipeline a b st =
     (let ms = matchStage a b (Orders st)
      in if ms = [] then [] else [(sum_list (map totalAmount ms), length ms)])"
proof -
  have "group_by (\<lambda>ord. ()) ms = (if ms = [] then [] else [((), ms)])" for ms :: "order list"
    by (rule group_by_single_key) simp
  then show ?thesis
    by (simp add: overallAnalyticsPipeline_def Let_def)
qed

lemma getSalesAnalytics_valid:
  assumes "parse s = Some a" and "parse e = Some b" and "a < b" and "online st"
  shows "getSalesAnalytics parse st s e =
     (Inr \<lparr>totalRevenue = toFixed2 (sum_list (map totalAmount (matchStage a b (Orders st)))),
           completedOrders = length (matchStage a b (Orders st)),
           categoryBreakdown = map (\<lambda>item. item\<lparr>revenue := toFixed2 (revenue item)\<rparr>)
                                 (categoryBreakdownPipeline a b st)\<rparr>,
      [Order_aggregate, Order_aggregate])"
  using assms
  by (simp add: getSalesAnalytics_def getSalesAnalytics_try_def aggregate_def
        overallAnalyticsPipeline_eq Let_def toFixed2_zero)

lemma matchStage_withoutProduct:
  "matchStage a b (Orders (withoutProduct pid st)) =
     map (\<lambda>ord. ord\<lparr>products := filter (\<lambda>i. productId i \<noteq> pid) (products ord)\<rparr>)
       (matchStage a b (Orders st))"
  by (simp add: matchStage_def withoutProduct_def filter_map comp_def)

lemma joinedItems_withoutProduct:
  assumes "Products st pid = None"
  shows "joinedItems st (map (\<lambda>ord. ord\<lparr>products := filter (\<lambda>i. productId i \<noteq> pid) (products ord)\<rparr>) os)
       = joinedItems st os"
proof -
  have "concat (map products (map (\<lambda>ord. ord\<lparr>products := filter (\<lambda>i. productId i \<noteq> pid) (products ord)\<rparr>) os))
      = filter (\<lambda>i. productId i \<noteq> pid) (concat (map products os))"
    by (induction os) simp_all
  then show ?thesis
    using assms by (simp only: joinedItems_items lookup_unwind_drop_unmatched)
qed

lemma joinedItems_Products:
  "Products st' = Products st \<Longrightarrow> joinedItems st' os = joinedItems st os"
  by (simp add: joinedItems_def lookup_unwind_def)

lemma categoryBreakdownPipeline_withoutProduct:
  assumes "Products st pid = None"
  shows "categoryBreakdownPipeline a b (withoutProduct pid st) = categoryBreakdownPipeline a b st"
proof -
  have "joinedItems (withoutProduct pid st) (matchStage a b (Orders (withoutProduct pid st)))
      = joinedItems st (matchStage a b (Orders (withoutProduct pid st)))"
    by (rule joinedItems_Products) (simp add: withoutProduct_def)
  also have "\<dots> = joinedItems st (matchStage a b (Orders st))"
    by (simp only: matchStage_withoutProduct joinedItems_withoutProduct [OF assms])
  finally show ?thesis
    by (simp only: categoryBreakdownPipeline_joined)
qed

lemma overallAnalyticsPipeline_withoutProduct:
  "overallAnalyticsPipeline a b (withoutProduct pid st) = overallAnalyticsPipeline a b st"
  by (simp add: overallAnalyticsPipeline_eq matchStage_withoutProduct Let_def comp_def)

lemma getSalesAnalytics_withoutProduct:
  assumes "Products st pid = None"
  shows "getSalesAnalytics parse (withoutProduct pid st) s e = getSalesAnalytics parse st s e"
proof -
  have on: "online (withoutProduct pid st) = online st"
    by (simp add: withoutProduct_def)
  have agg1: "aggregate (withoutProduct pid st) (\<lambda>s. Inr (overallAnalyticsPipeline x y s))
      = aggregate st (\<lambda>s. Inr (overallAnalyticsPipeline x y s))" for x y
    by (simp add: aggregate_def on overallAnalyticsPipeline_withoutProduct)
  have agg2: "aggregate (withoutProduct pid st) (\<lambda>s. Inr (categoryBreakdownPipeline x y s))
      = aggregate st (\<lambda>s. Inr (categoryBreakdownPipeline x y s))" for x y
    by (simp add: aggregate_def on categoryBreakdownPipeline_withoutProduct [OF assms])
  have "getSalesAnalytics_try parse (withoutProduct pid st) s e = getSalesAnalytics_try parse st s e"
    unfolding getSalesAnalytics_try_def agg1 agg2 by (rule refl)
  then show ?thesis
    by (simp add: getSalesAnalytics_def)
qed

section \<open>The queries on the example data\<close>

lemmas spending_defs = getCustomerSpending_def getCustomerSpending_try_def
  getCustomerSpending_catch_def spendingPipeline_def spendingGroupOf_def spendingProject_def
  divide_stage_def toFixed2_def floor_rat_numeral

lemmas lookup_defs = getCustomer_def getProduct_def getOrder_def lookup_try_def lookup_catch_def

lemmas analytics_defs = getSalesAnalytics_def getSalesAnalytics_try_def getSalesAnalytics_catch_def
  overallAnalyticsPipeline_def categoryBreakdownPipeline_def matchStage_def round2_def
  round_half_even_def toFixed2_def floor_rat_numeral Let_def

lemma demo_parse_start: "demo_parse ''1970-01-01T00:00:01.000Z'' = Some 1000"
  by (simp add: demo_parse_def)

lemma demo_parse_end: "demo_parse ''1970-01-01T00:00:02.000Z'' = Some 2000"
  by (simp add: demo_parse_def)

lemma demo_online: "online demo_store"
  by (simp add: demo_store_def)

lemma demo_analytics:
  "getSalesAnalytics demo_parse demo_store ''1970-01-01T00:00:01.000Z'' ''1970-01-01T00:00:02.000Z'' =
     (Inr \<lparr>totalRevenue = 3045, completedOrders = 1,
           categoryBreakdown = [\<lparr>cr_category = ''Electronics'', revenue = 3000\<rparr>]\<rparr>,
      [Order_aggregate, Order_aggregate])"
  by (simp add: analytics_defs stage_defs demo_defs demo_parse_def)

section \<open>An unknown customer\<close>

text \<open>
  Claim C1 fails on the code. \<open>Customer not found\<close> is thrown inside the \<open>try\<close> block, and
  the \<open>catch\<close> block, which lets only a \<open>CastError\<close> through as \<open>BAD_USER_INPUT\<close>, turns
  it into \<open>INTERNAL_SERVER_ERROR\<close>: for the identifier \<open>c8\<close>, which no order and no customer
  of the example store carries, the caller gets \<open>INTERNAL_SERVER_ERROR\<close>. On no store and for
  no argument does the query fail with \<open>NOT_FOUND\<close>.
\<close>

theorem getCustomerSpending_unknown_customer:
  "Customers demo_store ''c8'' = None \<and> ordersOf demo_store ''c8'' = []
   \<and> keyFormat demo_store ''c8'' \<and> online demo_store
   \<and> getCustomerSpending demo_store (Some ''c8'') =
     (Inl (GraphQLError ''Could not fetch customer spending data.'' (Some INTERNAL_SERVER_ERROR)),
      [Order_aggregate, Customer_findById ''c8''])
   \<and> (\<forall>st arg msg. fst (getCustomerSpending st arg) \<noteq> Inl (GraphQLError msg (Some NOT_FOUND)))"
proof -
  have "getCustomerSpending demo_store (Some ''c8'') =
     (Inl (GraphQLError ''Could not fetch customer spending data.'' (Some INTERNAL_SERVER_ERROR)),
      [Order_aggregate, Customer_findById ''c8''])"
    by (simp add: spending_defs stage_defs demo_defs)
  moreover have "Customers demo_store ''c8'' = None" "ordersOf demo_store ''c8'' = []"
    "keyFormat demo_store ''c8''" "online demo_store"
    by (simp_all add: demo_defs ordersOf_def)
  ultimately show ?thesis
    using getCustomerSpending_never_NOT_FOUND by blast
qed

section \<open>Point lookups of absent documents\<close>

text \<open>
  Claim C2 fails on the code. In \<open>getCustomer\<close>, \<open>getProduct\<close> and \<open>getOrder\<close> the
  \<open>NOT_FOUND\<close> error is thrown inside the \<open>try\<close> block and the \<open>catch\<close> block replaces it
  by an error that has a message and no code: a lookup of an absent document does not report
  \<open>NOT_FOUND\<close>, on the example store and on every other.
\<close>

theorem point_lookup_absent:
  "Customers demo_store ''c8'' = None \<and> keyFormat demo_store ''c8'' \<and> online demo_store
   \<and> getCustomer demo_store ''c8'' =
     (Inl (GraphQLError ''Error fetching customer'' None), [Customer_findById ''c8''])
   \<and> getProduct demo_store ''p9'' =
     (Inl (GraphQLError ''Error fetching product'' None), [Product_findById ''p9''])
   \<and> getOrder demo_store ''o9'' =
     (Inl (GraphQLError ''Error fetching order'' None), [Order_findById ''o9''])
   \<and> (\<forall>st ident msg.
          fst (getCustomer st ident) \<noteq> Inl (GraphQLError msg (Some NOT_FOUND))
        \<and> fst (getProduct st ident) \<noteq> Inl (GraphQLError msg (Some NOT_FOUND))
        \<and> fst (getOrder st ident) \<noteq> Inl (GraphQLError msg (Some NOT_FOUND)))"
proof -
  have "getCustomer demo_store ''c8'' =
     (Inl (GraphQLError ''Error fetching customer'' None), [Customer_findById ''c8''])"
    "getProduct demo_store ''p9'' =
     (Inl (GraphQLError ''Error fetching product'' None), [Product_findById ''p9''])"
    "getOrder demo_store ''o9'' =
     (Inl (GraphQLError ''Error fetching order'' None), [Order_findById ''o9''])"
    by (simp_all add: lookup_defs stage_defs demo_defs)
  moreover have "Customers demo_store ''c8'' = None" "keyFormat demo_store ''c8''"
    "online demo_store"
    by (simp_all add: demo_defs)
  ultimately show ?thesis
    using point_lookup_never_NOT_FOUND by blast
qed

section \<open>Which orders the sales analytics count\<close>



section \<open>Top-selling products\<close>

text \<open>
  Claim C4. For a positive limit and a store that answers, \<open>getTopSellingProducts\<close> makes one
  aggregation over the orders and returns at most \<open>limit\<close> entries, in non-increasing order
  of \<open>totalSold\<close>, with one entry per product at most. Each entry stands for a product
  that occurs in a line item of some order, of any status; its \<open>totalSold\<close> is the sum of the
  quantities of all line items of that product, and its name is that of the product record
  with this identifier. A product with line items and a record that is left out has sold no
  more than any entry returned.
\<close>

theorem getTopSellingProducts_result:
  assumes "0 < n" and "online st"
  shows "\<exists>results. getTopSellingProducts st (Some n) = (Inr results, [Order_aggregate])
     \<and> length results \<le> nat n
     \<and> sorted_wrt (\<lambda>a b. totalSold b \<le> totalSold a) results
     \<and> distinct (map tp_productId results)
     \<and> (\<forall>r \<in> set results.
          tp_productId r \<in> productId ` set (concat (map products (Orders st)))
          \<and> totalSold r = sum_list (map quantity (filter (\<lambda>i. productId i = tp_productId r)
                                        (concat (map products (Orders st)))))
          \<and> (\<exists>p. Products st (tp_productId r) = Some p \<and> tp_name r = name p))
     \<and> (\<forall>pid \<in> productId ` set (concat (map products (Orders st))).
          pid \<notin> tp_productId ` set results \<longrightarrow> Products st pid \<noteq> None \<longrightarrow>
          (\<forall>r \<in> set results.
             sum_list (map quantity (filter (\<lambda>i. productId i = pid)
                                        (concat (map products (Orders st))))) \<le> totalSold r))"
proof -
  let ?proj = "\<lambda>(g, p). \<lparr>tp_productId = fst g, tp_name = name p, totalSold = snd g\<rparr>"
  let ?limited = "take (nat n) (sort_desc snd (soldGroups st))"
  let ?joined = "lookup_unwind st fst ?limited"
  let ?results = "map ?proj ?joined"
  have res: "getTopSellingProducts st (Some n) = (Inr ?results, [Order_aggregate])"
    using assms by (simp add: getTopSellingProducts_def aggregate_def topSellingPipeline_eq)
  have len: "length ?results \<le> nat n"
    using lookup_unwind_length [of st fst ?limited] by simp
  have "sorted_wrt (\<lambda>a b. snd b \<le> snd a) ?limited"
    using sorted_sort_desc [of snd "soldGroups st"] by (simp add: sorted_wrt_take)
  then have "sorted_wrt (\<lambda>a b. snd (fst b) \<le> snd (fst a)) ?joined"
    by (rule sorted_wrt_lookup_unwind)
  then have srt: "sorted_wrt (\<lambda>a b. totalSold b \<le> totalSold a) ?results"
    by (simp add: sorted_wrt_map case_prod_unfold)
  have "map tp_productId ?results = map fst (map fst ?joined)"
    by (simp add: comp_def case_prod_unfold)
  then have ids: "map tp_productId ?results = map fst (filter (\<lambda>d. Products st (fst d) \<noteq> None) ?limited)"
    by (simp only: lookup_unwind_fst)
  have "distinct (map fst ?limited)"
    using soldGroups_distinct [of st]
    by (simp add: distinct_map_sort_desc take_map [symmetric] distinct_take)
  then have dist: "distinct (map tp_productId ?results)"
    unfolding ids by (rule distinct_map_filter)
  have each: "tp_productId r \<in> productId ` set (lineItems st)
          \<and> totalSold r = soldOf st (tp_productId r)
          \<and> (\<exists>p. Products st (tp_productId r) = Some p \<and> tp_name r = name p)"
    if "r \<in> set ?results" for r
  proof -
    from that obtain g p where gp: "(g, p) \<in> set ?joined" and r: "r = ?proj (g, p)"
      by auto
    from gp have "g \<in> set ?limited" and p: "Products st (fst g) = Some p"
      by (simp_all add: lookup_unwind_member)
    then have "g \<in> set (soldGroups st)"
      by (metis in_set_takeD set_sort_desc)
    then have "fst g \<in> productId ` set (lineItems st) \<and> snd g = soldOf st (fst g)"
      using soldGroups_member [of "fst g" "snd g" st] by simp
    with p r show ?thesis by simp
  qed
  have top: "soldOf st pid \<le> totalSold r"
    if pid: "pid \<in> productId ` set (lineItems st)" and out: "pid \<notin> tp_productId ` set ?results"
      and rec: "Products st pid \<noteq> None" and r: "r \<in> set ?results" for pid r
  proof -
    let ?g = "(pid, soldOf st pid)"
    have all: "?g \<in> set (sort_desc snd (soldGroups st))"
      using pid by (simp add: set_sort_desc soldGroups_member)
    have "?g \<notin> set ?limited"
    proof
      assume "?g \<in> set ?limited"
      with rec have "pid \<in> set (map fst (filter (\<lambda>d. Products st (fst d) \<noteq> None) ?limited))"
        by force
      then have "pid \<in> set (map tp_productId ?results)"
        by (simp only: ids)
      with out show False
        by (simp only: set_map)
    qed
    moreover from r obtain g p where gp: "(g, p) \<in> set ?joined" and rg: "r = ?proj (g, p)"
      by auto
    from gp have "g \<in> set ?limited"
      by (simp add: lookup_unwind_member)
    ultimately have "snd ?g \<le> snd g"
      using take_drop_sorted [OF sorted_sort_desc [of snd "soldGroups st"], of g "nat n" ?g] all
      by blast
    with rg show ?thesis by simp
  qed
  show ?thesis
    using res len srt dist each top unfolding lineItems_def soldOf_def by blast
qed

theorem getTopSellingProducts_result_witness:
  "0 < (3::int) \<and> online demo_store \<and>
   getTopSellingProducts demo_store (Some 3) =
     (Inr [\<lparr>tp_productId = ''p1'', tp_name = ''Laptop'', totalSold = 8\<rparr>,
           \<lparr>tp_productId = ''p2'', tp_name = ''Mug'', totalSold = 5\<rparr>], [Order_aggregate]) \<and>
   (\<exists>results. getTopSellingProducts demo_store (Some 3) = (Inr results, [Order_aggregate])
      \<and> length results \<le> nat 3
      \<and> sorted_wrt (\<lambda>a b. totalSold b \<le> totalSold a) results
      \<and> (\<forall>r \<in> set results.
            \<exists>p. Products demo_store (tp_productId r) = Some p \<and> tp_name r = name p))"
proof -
  have h1: "0 < (3::int)" by simp
  have h2: "online demo_store" by (simp add: demo_store_def)
  have v: "getTopSellingProducts demo_store (Some 3) =
     (Inr [\<lparr>tp_productId = ''p1'', tp_name = ''Laptop'', totalSold = 8\<rparr>,
           \<lparr>tp_productId = ''p2'', tp_name = ''Mug'', totalSold = 5\<rparr>], [Order_aggregate])"
    by (simp add: getTopSellingProducts_def topSellingPipeline_def demo_defs stage_defs)
  from getTopSellingProducts_result [OF h1 h2] obtain results where
    "getTopSellingProducts demo_store (Some 3) = (Inr results, [Order_aggregate])"
    "length results \<le> nat 3"
    "sorted_wrt (\<lambda>a b. totalSold b \<le> totalSold a) results"
    "\<forall>r \<in> set results. \<exists>p. Products demo_store (tp_productId r) = Some p \<and> tp_name r = name p"
    by blast
  with h1 h2 v show ?thesis by blast
qed

section \<open>Rounding of the spending summary\<close>




section \<open>A customer without orders\<close>

text \<open>
  Claim C6. For a non-empty \<open>customerId\<close> that no order carries and a customer record that
  exists under it, \<open>getCustomerSpending\<close> returns the zero-valued summary and no error. The
  store answers and the identifier is one it can cast, as the key of a stored record is.
\<close>

theorem getCustomerSpending_no_orders:
  assumes "cid \<noteq> []" and "online st" and "keyFormat st cid"
    and "Customers st cid = Some c" and "\<forall>ord \<in> set (Orders st). customerId ord \<noteq> cid"
  shows "getCustomerSpending st (Some cid) =
     (Inr \<lparr>cs_customerId = cid, totalSpent = 0, averageOrderValue = 0, lastOrderDate = None\<rparr>,
      [Order_aggregate, Customer_findById cid])"
proof -
  have "ordersOf st cid = []"
    using assms(5) by (auto simp: ordersOf_def filter_empty_conv)
  then show ?thesis
    using assms(1-4)
    by (simp add: getCustomerSpending_def getCustomerSpending_try_def aggregate_def
          findById_def spendingPipeline_none)
qed

theorem getCustomerSpending_no_orders_witness:
  "''c2'' \<noteq> [] \<and> online demo_store \<and> keyFormat demo_store ''c2''
   \<and> Customers demo_store ''c2'' \<noteq> None
   \<and> ''c2'' \<notin> customerId ` set (Orders demo_store)
   \<and> getCustomerSpending demo_store (Some ''c2'') =
     (Inr \<lparr>cs_customerId = ''c2'', totalSpent = 0, averageOrderValue = 0, lastOrderDate = None\<rparr>,
      [Order_aggregate, Customer_findById ''c2''])"
proof -
  have h1: "''c2'' \<noteq> []" by simp
  have h2: "online demo_store" "keyFormat demo_store ''c2''" by (simp_all add: demo_defs)
  have h3: "Customers demo_store ''c2'' = Some \<lparr>customer_name = ''Bob'', email = ''bob@example.com'',
     age = None, location = None, gender = None\<rparr>"
    by (simp add: demo_defs)
  have h4: "\<forall>ord \<in> set (Orders demo_store). customerId ord \<noteq> ''c2''" by (simp add: demo_defs)
  have h5: "''c2'' \<notin> customerId ` set (Orders demo_store)" by (simp add: demo_defs)
  from getCustomerSpending_no_orders [OF h1 h2 h3 h4] h1 h2 h3 h5 show ?thesis by simp
qed

section \<open>Validation of the date range\<close>

text \<open>
  Claim C7. \<open>getSalesAnalytics\<close> fails with \<open>BAD_USER_INPUT\<close> if and only if one of the
  dates does not parse or the start is not strictly before the end, and it has then made no
  call to the store.
\<close>

theorem getSalesAnalytics_bad_input:
  "((\<exists>msg. fst (getSalesAnalytics parse st s e) = Inl (GraphQLError msg (Some BAD_USER_INPUT)))
      \<longleftrightarrow> parse s = None \<or> parse e = None
          \<or> (\<exists>a b. parse s = Some a \<and> parse e = Some b \<and> b \<le> a))
   \<and> (parse s = None \<or> parse e = None
          \<or> (\<exists>a b. parse s = Some a \<and> parse e = Some b \<and> b \<le> a)
        \<longrightarrow> snd (getSalesAnalytics parse st s e) = [])"
proof (cases "parse s")
  case None
  then show ?thesis
    by (simp add: getSalesAnalytics_def getSalesAnalytics_try_def getSalesAnalytics_catch_def)
next
  case sa: (Some a)
  show ?thesis
  proof (cases "parse e")
    case None
    with sa show ?thesis
      by (simp add: getSalesAnalytics_def getSalesAnalytics_try_def getSalesAnalytics_catch_def)
  next
    case sb: (Some b)
    show ?thesis
    proof (cases "b \<le> a")
      case True
      with sa sb show ?thesis
        by (simp add: getSalesAnalytics_def getSalesAnalytics_try_def getSalesAnalytics_catch_def)
    next
      case False
      with sa sb show ?thesis
        by (cases "online st")
          (simp_all add: getSalesAnalytics_def getSalesAnalytics_try_def
            getSalesAnalytics_catch_def aggregate_def)
    qed
  qed
qed

theorem getSalesAnalytics_bad_input_witness:
  "demo_parse ''yesterday'' = None
   \<and> fst (getSalesAnalytics demo_parse (demo_store\<lparr>online := False\<rparr>) ''yesterday''
            ''1970-01-01T00:00:02.000Z'')
       = Inl (GraphQLError
           ''Invalid date format. Please use ISO 8601 format (YYYY-MM-DDTHH:mm:ss.sssZ)''
           (Some BAD_USER_INPUT))
   \<and> snd (getSalesAnalytics demo_parse (demo_store\<lparr>online := False\<rparr>) ''yesterday''
            ''1970-01-01T00:00:02.000Z'') = []
   \<and> snd (getSalesAnalytics demo_parse demo_store ''1970-01-01T00:00:02.000Z''
            ''1970-01-01T00:00:01.000Z'') = []
   \<and> (\<exists>msg. fst (getSalesAnalytics demo_parse demo_store ''1970-01-01T00:00:02.000Z''
            ''1970-01-01T00:00:01.000Z'') = Inl (GraphQLError msg (Some BAD_USER_INPUT)))"
proof -
  have p: "demo_parse ''yesterday'' = None"
    by (simp add: demo_parse_def)
  have "(2000 :: int) \<ge> 1000" by simp
  with demo_parse_start demo_parse_end
  have q: "\<exists>a b. demo_parse ''1970-01-01T00:00:02.000Z'' = Some a
             \<and> demo_parse ''1970-01-01T00:00:01.000Z'' = Some b \<and> b \<le> a"
    by simp
  have v: "fst (getSalesAnalytics demo_parse (demo_store\<lparr>online := False\<rparr>) ''yesterday''
            ''1970-01-01T00:00:02.000Z'')
       = Inl (GraphQLError
           ''Invalid date format. Please use ISO 8601 format (YYYY-MM-DDTHH:mm:ss.sssZ)''
           (Some BAD_USER_INPUT))"
    by (simp add: getSalesAnalytics_def getSalesAnalytics_try_def getSalesAnalytics_catch_def p)
  from getSalesAnalytics_bad_input [of demo_parse "demo_store\<lparr>online := False\<rparr>" "''yesterday''"
      "''1970-01-01T00:00:02.000Z''"] p
  have 1: "snd (getSalesAnalytics demo_parse (demo_store\<lparr>online := False\<rparr>) ''yesterday''
            ''1970-01-01T00:00:02.000Z'') = []"
    by blast
  from getSalesAnalytics_bad_input [of demo_parse demo_store "''1970-01-01T00:00:02.000Z''"
      "''1970-01-01T00:00:01.000Z''"] q
  have 2: "snd (getSalesAnalytics demo_parse demo_store ''1970-01-01T00:00:02.000Z''
            ''1970-01-01T00:00:01.000Z'') = []"
    and 3: "\<exists>msg. fst (getSalesAnalytics demo_parse demo_store ''1970-01-01T00:00:02.000Z''
            ''1970-01-01T00:00:01.000Z'') = Inl (GraphQLError msg (Some BAD_USER_INPUT))"
    by blast+
  from p v 1 2 3 show ?thesis by blast
qed

section \<open>Validation of the limit\<close>

text \<open>
  Claim C8. \<open>getTopSellingProducts\<close> fails with \<open>BAD_USER_INPUT\<close> whenever the limit is
  absent or not positive, and it has then made no call to the store.
\<close>

theorem getTopSellingProducts_bad_limit:
  assumes "limit = None \<or> (\<exists>n. limit = Some n \<and> n \<le> 0)"
  shows "getTopSellingProducts st limit =
           (Inl (GraphQLError ''Limit must be a positive integer'' (Some BAD_USER_INPUT)), [])"
  using assms by (auto simp: getTopSellingProducts_def)

theorem getTopSellingProducts_bad_limit_witness:
  "getTopSellingProducts demo_store None =
     (Inl (GraphQLError ''Limit must be a positive integer'' (Some BAD_USER_INPUT)), []) \<and>
   getTopSellingProducts (demo_store\<lparr>online := False\<rparr>) (Some (- 3)) =
     (Inl (GraphQLError ''Limit must be a positive integer'' (Some BAD_USER_INPUT)), [])"
  using getTopSellingProducts_bad_limit [of None demo_store]
    getTopSellingProducts_bad_limit [of "Some (- 3)" "demo_store\<lparr>online := False\<rparr>"]
  by simp

section \<open>Line items without a product record\<close>

text \<open>
  Claim C9. Let no product record exist under \<open>pid\<close>, and let the store answer. For a positive
  limit \<open>getTopSellingProducts\<close> succeeds and no entry of its result has this product. The
  result of \<open>getSalesAnalytics\<close> is the same as on the store with every line item of \<open>pid\<close>
  taken out, so those line items add nothing to any category; for a valid date range it
  succeeds, and every category of the breakdown is the category of a product the store holds.
\<close>

theorem unmatched_product_dropped:
  assumes "Products st pid = None" and "online st"
  shows "(0 < n \<longrightarrow>
            (\<exists>results. getTopSellingProducts st (Some n) = (Inr results, [Order_aggregate])
                \<and> pid \<notin> tp_productId ` set results))
     \<and> getSalesAnalytics parse (withoutProduct pid st) s e = getSalesAnalytics parse st s e
     \<and> (parse s = Some a \<and> parse e = Some b \<and> a < b \<longrightarrow>
            (\<exists>r. getSalesAnalytics parse st s e = (Inr r, [Order_aggregate, Order_aggregate])
                \<and> (\<forall>cr \<in> set (categoryBreakdown r).
                      \<exists>p \<in> ran (Products st). category p = cr_category cr)))"
proof (intro conjI impI)
  assume "0 < n"
  have "\<forall>r \<in> set (topSellingPipeline n st). Products st (tp_productId r) \<noteq> None"
    by (auto simp: topSellingPipeline_eq lookup_unwind_member)
  then have "pid \<notin> tp_productId ` set (topSellingPipeline n st)"
    using assms(1) by auto
  then show "\<exists>results. getTopSellingProducts st (Some n) = (Inr results, [Order_aggregate])
                \<and> pid \<notin> tp_productId ` set results"
    using \<open>0 < n\<close> assms(2) by (simp add: getTopSellingProducts_def aggregate_def)
next
  show "getSalesAnalytics parse (withoutProduct pid st) s e = getSalesAnalytics parse st s e"
    using assms(1) by (rule getSalesAnalytics_withoutProduct)
next
  assume v: "parse s = Some a \<and> parse e = Some b \<and> a < b"
  let ?cb = "map (\<lambda>item. item\<lparr>revenue := toFixed2 (revenue item)\<rparr>) (categoryBreakdownPipeline a b st)"
  have "\<exists>p \<in> ran (Products st). category p = cr_category cr" if "cr \<in> set ?cb" for cr
  proof -
    from that have "cr_category cr \<in> fst ` set (revenueGroups st (matchStage a b (Orders st)))"
      by (force simp: categoryBreakdownPipeline_eq set_sort_desc)
    then obtain t where "(cr_category cr, t) \<in> set (revenueGroups st (matchStage a b (Orders st)))"
      by force
    then obtain i :: orderItem where "map_option category (Products st (productId i)) = Some (cr_category cr)"
      unfolding revenueGroups_member by blast
    then show ?thesis
      by (auto simp: ran_def)
  qed
  then show "\<exists>r. getSalesAnalytics parse st s e = (Inr r, [Order_aggregate, Order_aggregate])
                \<and> (\<forall>cr \<in> set (categoryBreakdown r).
                      \<exists>p \<in> ran (Products st). category p = cr_category cr)"
    using v assms(2) by (simp add: getSalesAnalytics_valid)
qed

theorem unmatched_product_dropped_witness:
  "Products demo_store ''p9'' = None \<and> online demo_store
   \<and> ''p9'' \<in> productId ` set (concat (map products (Orders demo_store)))
   \<and> (\<exists>results. getTopSellingProducts demo_store (Some 3) = (Inr results, [Order_aggregate])
          \<and> ''p9'' \<notin> tp_productId ` set results)
   \<and> getSalesAnalytics demo_parse (withoutProduct ''p9'' demo_store)
        ''1970-01-01T00:00:01.000Z'' ''1970-01-01T00:00:02.000Z''
      = (Inr \<lparr>totalRevenue = 3045, completedOrders = 1,
              categoryBreakdown = [\<lparr>cr_category = ''Electronics'', revenue = 3000\<rparr>]\<rparr>,
         [Order_aggregate, Order_aggregate])"
proof -
  have h1: "Products demo_store ''p9'' = None"
    by (simp add: demo_defs)
  have h3: "''p9'' \<in> productId ` set (concat (map products (Orders demo_store)))"
    by (simp add: demo_defs)
  have pos: "0 < (3 :: int)" by simp
  from unmatched_product_dropped [OF h1 demo_online, of 3 demo_parse
      "''1970-01-01T00:00:01.000Z''" "''1970-01-01T00:00:02.000Z''"] pos
  have "\<exists>results. getTopSellingProducts demo_store (Some 3) = (Inr results, [Order_aggregate])
          \<and> ''p9'' \<notin> tp_productId ` set results"
    and "getSalesAnalytics demo_parse (withoutProduct ''p9'' demo_store)
        ''1970-01-01T00:00:01.000Z'' ''1970-01-01T00:00:02.000Z''
      = getSalesAnalytics demo_parse demo_store
        ''1970-01-01T00:00:01.000Z'' ''1970-01-01T00:00:02.000Z''"
    by blast+
  with h1 h3 demo_online demo_analytics show ?thesis
    by simp
qed

section \<open>Orders of a customer that has no record\<close>

text \<open>
  Claim C10. For a non-empty \<open>customerId\<close> that at least one order carries, and a store that
  answers, \<open>getCustomerSpending\<close> returns the summary of those orders: the rounded sum of
  their \<open>totalAmount\<close>, the rounded quotient of that sum by their number, both as the store
  computes them, and the latest \<open>orderDate\<close>. Its only store call is the aggregation over the
  orders: the customers are not read, and the result is the same whatever customers the store
  holds, so also when none has this identifier.
\<close>

theorem getCustomerSpending_with_orders:
  assumes "cid \<noteq> []" and "online st" and "\<exists>ord \<in> set (Orders st). customerId ord = cid"
  shows "getCustomerSpending st (Some cid) =
     (Inr \<lparr>cs_customerId = cid,
           totalSpent = toFixed2 (storeSum st (amountsOf st cid)),
           averageOrderValue =
             toFixed2 (storeDivide st (storeSum st (amountsOf st cid))
                        (of_nat (length (ordersOf st cid)))),
           lastOrderDate = Some (Max (orderDate ` set (ordersOf st cid)))\<rparr>,
      [Order_aggregate])
     \<and> (\<forall>cs. getCustomerSpending (st\<lparr>Customers := cs\<rparr>) (Some cid)
              = getCustomerSpending st (Some cid))"
proof -
  have ne: "ordersOf st cid \<noteq> []"
    using assms(3) by (auto simp: ordersOf_def filter_empty_conv)
  have eq: "getCustomerSpending s (Some cid) =
     (Inr \<lparr>cs_customerId = cid,
           totalSpent = toFixed2 (storeSum s (amountsOf s cid)),
           averageOrderValue =
             toFixed2 (storeDivide s (storeSum s (amountsOf s cid))
                        (of_nat (length (ordersOf s cid)))),
           lastOrderDate = Some (Max (orderDate ` set (ordersOf s cid)))\<rparr>,
      [Order_aggregate])"
    if "online s" and "ordersOf s cid \<noteq> []" for s
    using that assms(1)
    by (simp add: getCustomerSpending_def getCustomerSpending_try_def aggregate_def
          spendingPipeline_some)
  have same: "ordersOf (st\<lparr>Customers := cs\<rparr>) cid = ordersOf st cid"
    "amountsOf (st\<lparr>Customers := cs\<rparr>) cid = amountsOf st cid" for cs
    by (simp_all add: ordersOf_def amountsOf_def)
  have "getCustomerSpending (st\<lparr>Customers := cs\<rparr>) (Some cid)
          = getCustomerSpending st (Some cid)" for cs
    using eq [of "st\<lparr>Customers := cs\<rparr>"] eq [of st] assms(2) ne
    by (simp add: same)
  then show ?thesis
    using eq [of st] assms(2) ne by simp
qed

theorem getCustomerSpending_with_orders_witness:
  "''c7'' \<noteq> [] \<and> online orphan_store
   \<and> (\<exists>ord \<in> set (Orders orphan_store). customerId ord = ''c7'')
   \<and> length (ordersOf orphan_store ''c7'') = 2
   \<and> Customers orphan_store ''c7'' = None
   \<and> getCustomerSpending orphan_store (Some ''c7'') =
     (Inr \<lparr>cs_customerId = ''c7'', totalSpent = 150, averageOrderValue = 75,
           lastOrderDate = Some 2000\<rparr>, [Order_aggregate])"
proof -
  have h1: "''c7'' \<noteq> []" by simp
  have h2: "online orphan_store" by (simp add: orphan_defs)
  have h3: "\<exists>ord \<in> set (Orders orphan_store). customerId ord = ''c7''"
    by (simp add: orphan_defs)
  have h4: "Customers orphan_store ''c7'' = None" by (simp add: orphan_defs)
  have os: "ordersOf orphan_store ''c7'' = orphan_orders"
    by (simp add: orphan_defs ordersOf_def)
  have am: "amountsOf orphan_store ''c7'' = [50, 100]"
    by (simp add: orphan_defs ordersOf_def amountsOf_def sort_desc_def)
  have ar: "storeSum orphan_store = sum_list" "storeDivide orphan_store = (\<lambda>x y. x / y)"
    by (simp_all add: orphan_defs)
  have mx: "Max (orderDate ` set orphan_orders) = 2000"
    by (simp add: orphan_orders_def)
  have n: "length orphan_orders = 2"
    by (simp add: orphan_orders_def)
  from getCustomerSpending_with_orders [OF h1 h2 h3]
  have "getCustomerSpending orphan_store (Some ''c7'') =
     (Inr \<lparr>cs_customerId = ''c7'', totalSpent = 150, averageOrderValue = 75,
           lastOrderDate = Some 2000\<rparr>, [Order_aggregate])"
    by (simp add: os am ar mx n toFixed2_def floor_rat_numeral)
  with h1 h2 h3 h4 os n show ?thesis by simp
qed

end
